theory Spec2Isabelle
  imports Main
begin

section \<open>The virtual scroll viewport (virtual-scroll-viewport.ts)\<close>

text \<open>
  \<^verbatim>\<open>CdkVirtualScrollViewport\<close> is modelled as a record of its fields together with the
  bookkeeping of the collaborators it talks to, and every method as a function from the
  state to the new state.  The collaborators (scroll strategy, change detector, subscribers
  of the rendered-range stream, the scrolled DOM element) are outside the class: a call to
  one of them is appended to the trace \<open>effects\<close>, and whatever they do in reaction reaches
  the viewport as a later event.

  Numbers: pixel sizes, offsets and range indices are \<open>int\<close>, the data length is \<open>nat\<close>.
  The JavaScript values are doubles; the model covers the integer values among them.
\<close>

subsection \<open>Data\<close>

datatype orientation = Horizontal | Vertical

datatype edge = ToStart | ToEnd

text \<open>\<^verbatim>\<open>ListRange\<close> of \<^verbatim>\<open>@angular/cdk/collections\<close>: \<^verbatim>\<open>{start: number; end: number}\<close>.\<close>

record ListRange =
  start :: int
  end' :: int

text \<open>
  The value that \<^verbatim>\<open>DomSanitizer.bypassSecurityTrustStyle\<close> returns is not a string: it
  is an object (\<^verbatim>\<open>SafeStyleImpl\<close>) that wraps the string in its field
  \<^verbatim>\<open>changingThisBreaksApplicationSecurity\<close>.
\<close>

datatype SafeStyle = SafeStyleImpl (changingThisBreaksApplicationSecurity: string)

text \<open>The \<^verbatim>\<open>nativeElement\<close> of the viewport, as far as \<^verbatim>\<open>ngOnInit\<close> reads it.\<close>

record element =
  clientWidth :: int
  clientHeight :: int

text \<open>An attached \<^verbatim>\<open>CdkVirtualForOf\<close> is an object; the model knows it by an identifier.\<close>

type_synonym forOf = nat

datatype error = Error string

datatype strategy_call =
  StrategyAttach
| StrategyDetach
| OnContentScrolled
| OnDataLengthChanged
| OnContentRendered

text \<open>
  What the viewport does to the outside, in the order it does it: a value published on
  \<^verbatim>\<open>_renderedRangeSubject\<close>, \<^verbatim>\<open>_changeDetectorRef.markForCheck()\<close>, a method of
  \<^verbatim>\<open>_scrollStrategy\<close>, an assignment to \<^verbatim>\<open>scrollLeft\<close> or \<^verbatim>\<open>scrollTop\<close> of the
  native element.
\<close>

datatype effect =
  RangeEmitted ListRange
| MarkForCheck
| Strategy strategy_call
| ScrollLeftWrite int
| ScrollTopWrite int

text \<open>
  The two closures handed to \<^verbatim>\<open>Promise.resolve().then\<close>: the one of \<^verbatim>\<open>ngOnInit\<close> and
  the one of \<^verbatim>\<open>setRenderedRange\<close>.
\<close>

datatype task = InitTask | ContentRenderedTask

text \<open>
  The fields of the class, followed by the state of the library objects the class creates:
  \<^item> \<open>detachedSubject_stopped\<close>, \<open>renderedRangeSubject_stopped\<close>: a \<^verbatim>\<open>Subject\<close> that has
    been completed ignores \<^verbatim>\<open>next\<close>;
  \<^item> \<open>dataSubs\<close>: the live subscriptions made in \<^verbatim>\<open>attach\<close>, each to the
    \<^verbatim>\<open>dataStream\<close> of one \<^verbatim>\<open>CdkVirtualForOf\<close>;
  \<^item> \<open>stableSubs\<close>: the number of \<^verbatim>\<open>take(1)\<close> subscribers of \<^verbatim>\<open>NgZone.onStable\<close>
    registered by \<^verbatim>\<open>setRenderedRange\<close> and still waiting;
  \<^item> \<open>microtasks\<close>: the microtask queue;
  \<^item> \<open>scrollSubs\<close>: one entry per subscription to the sampled scroll stream, holding the
    \<^verbatim>\<open>hasValue\<close> flag of its \<^verbatim>\<open>sampleTime\<close>.
  \<^verbatim>\<open>_pendingScrollOffset\<close>, \<^verbatim>\<open>_forOf\<close> and \<^verbatim>\<open>_renderedContentTransform\<close> have no
  initialiser: they start as \<^verbatim>\<open>undefined\<close>, which is \<open>None\<close> here, as is \<^verbatim>\<open>null\<close>.
\<close>

record viewport =
  orientation :: orientation
  nativeElement :: element
  totalContentSize :: int
  renderedContentTransform :: "SafeStyle option"
  renderedRange :: ListRange
  dataLength :: nat
  viewportSize :: int
  pendingScrollOffset :: "int option"
  forOf :: "forOf option"
  detachedSubject_stopped :: bool
  renderedRangeSubject_stopped :: bool
  dataSubs :: "forOf list"
  stableSubs :: nat
  microtasks :: "task list"
  scrollSubs :: "bool list"
  effects :: "effect list"

definition new_viewport :: "orientation \<Rightarrow> element \<Rightarrow> viewport" where
  "new_viewport ori el =
     \<lparr> orientation = ori,
       nativeElement = el,
       totalContentSize = 0,
       renderedContentTransform = None,
       renderedRange = \<lparr> start = 0, end' = 0 \<rparr>,
       dataLength = 0,
       viewportSize = 0,
       pendingScrollOffset = None,
       forOf = None,
       detachedSubject_stopped = False,
       renderedRangeSubject_stopped = False,
       dataSubs = [],
       stableSubs = 0,
       microtasks = [],
       scrollSubs = [],
       effects = [] \<rparr>"

definition emit :: "effect \<Rightarrow> viewport \<Rightarrow> viewport" where
  "emit e s = s\<lparr> effects := effects s @ [e] \<rparr>"

subsection \<open>Number formatting and string comparison of JavaScript\<close>

definition digit_char :: "nat \<Rightarrow> char" where
  "digit_char d = ''0123456789'' ! d"

function nat_to_string :: "nat \<Rightarrow> string" where
  "nat_to_string n =
     (if n < 10 then [digit_char n]
      else nat_to_string (n div 10) @ [digit_char (n mod 10)])"
  by pat_completeness auto
termination
  by (relation "measure id") auto

declare nat_to_string.simps [simp del]

text \<open>
  The template literal \<^verbatim>\<open>${Number(offset)}\<close> for an integer offset: the decimal digits,
  with a leading minus sign for a negative number.
\<close>

definition number_to_string :: "int \<Rightarrow> string" where
  "number_to_string i =
     (if i < 0 then ''-'' @ nat_to_string (nat (- i)) else nat_to_string (nat i))"

text \<open>
  \<^verbatim>\<open>SafeValueImpl.toString()\<close> of \<^verbatim>\<open>@angular/platform-browser\<close>, which every
  \<^verbatim>\<open>SafeStyleImpl\<close> inherits.
\<close>

definition safeValue_toString :: "SafeStyle \<Rightarrow> string" where
  "safeValue_toString v =
     ''SafeValue must use [property]=binding: '' @ changingThisBreaksApplicationSecurity v
       @ '' (see http://g.co/ng/security#xss)''"

text \<open>
  \<^verbatim>\<open>x != y\<close> for \<^verbatim>\<open>x\<close> a \<^verbatim>\<open>SafeStyle\<close> or \<^verbatim>\<open>undefined\<close> and \<^verbatim>\<open>y\<close> a string.
  \<^verbatim>\<open>undefined\<close> is loosely equal to \<^verbatim>\<open>null\<close> and \<^verbatim>\<open>undefined\<close> only.  An object
  is converted to a primitive first: \<^verbatim>\<open>valueOf\<close> returns the object itself, so the
  result of \<^verbatim>\<open>toString\<close> is what is compared with the string.
\<close>

definition loose_neq :: "SafeStyle option \<Rightarrow> string \<Rightarrow> bool" where
  "loose_neq x y = (case x of None \<Rightarrow> True | Some v \<Rightarrow> safeValue_toString v \<noteq> y)"

subsection \<open>The methods\<close>

text \<open>
  \<^verbatim>\<open>NgZone.run\<close> and \<^verbatim>\<open>NgZone.runOutsideAngular\<close> call the function they are given at
  once, so the body of each is written in place.  When the framework runs a change
  detection pass after \<^verbatim>\<open>markForCheck\<close>, and when the zone reports that it is stable, is
  decided outside the class: \<^verbatim>\<open>ngDoCheck\<close> and the emission of \<^verbatim>\<open>onStable\<close> are events
  of their own.
\<close>

definition rangesEqual :: "ListRange \<Rightarrow> ListRange \<Rightarrow> bool" where
  "rangesEqual r1 r2 = (start r1 = start r2 \<and> end' r1 = end' r2)"

text \<open>\<^verbatim>\<open>ngOnInit\<close> only queues a microtask; \<open>run_task InitTask\<close> is its body.\<close>

definition ngOnInit :: "viewport \<Rightarrow> viewport" where
  "ngOnInit s = s\<lparr> microtasks := microtasks s @ [InitTask] \<rparr>"

definition ngDoCheck :: "viewport \<Rightarrow> viewport" where
  "ngDoCheck s =
     (case pendingScrollOffset s of
        None \<Rightarrow> s
      | Some v \<Rightarrow>
          if orientation s = Horizontal then emit (ScrollLeftWrite v) s
          else emit (ScrollTopWrite v) s)"

text \<open>
  \<^verbatim>\<open>_detachedSubject.next()\<close> completes every \<^verbatim>\<open>takeUntil(this._detachedSubject)\<close>
  subscription, unless the subject has been completed before: then \<^verbatim>\<open>next\<close> does nothing.
\<close>

definition detach :: "viewport \<Rightarrow> viewport" where
  "detach s =
     (let s1 = s\<lparr> forOf := None \<rparr>
      in if detachedSubject_stopped s1 then s1 else s1\<lparr> dataSubs := [] \<rparr>)"

definition ngOnDestroy :: "viewport \<Rightarrow> viewport" where
  "ngOnDestroy s =
     (let s1 = detach s;
          s2 = emit (Strategy StrategyDetach) s1;
          s3 = s2\<lparr> renderedRangeSubject_stopped := True \<rparr>
      in s3\<lparr> detachedSubject_stopped := True \<rparr>)"

text \<open>
  \<^verbatim>\<open>if (this._forOf)\<close> holds for every object and fails for \<^verbatim>\<open>null\<close> and
  \<^verbatim>\<open>undefined\<close>.  A notifier that completes without a value does not end a
  \<^verbatim>\<open>takeUntil\<close>, so the subscription is made whether or not \<^verbatim>\<open>_detachedSubject\<close> is
  completed.  (Some releases of RxJS 6 skip the subscription when the notifier is already
  completed; the properties below that speak of the subscription are stated for a
  viewport whose \<^verbatim>\<open>_detachedSubject\<close> is not completed, where all releases agree.)
\<close>

definition attach :: "forOf \<Rightarrow> viewport \<Rightarrow> error + viewport" where
  "attach f s =
     (if forOf s \<noteq> None then Inl (Error ''CdkVirtualScrollViewport is already attached.'')
      else Inr (s\<lparr> forOf := Some f, dataSubs := dataSubs s @ [f] \<rparr>))"

text \<open>The subscriber of \<^verbatim>\<open>dataStream\<close> in \<^verbatim>\<open>attach\<close>, called with \<^verbatim>\<open>data.length\<close>.\<close>

definition on_data :: "nat \<Rightarrow> viewport \<Rightarrow> viewport" where
  "on_data len s =
     (if len \<noteq> dataLength s then emit (Strategy OnDataLengthChanged) (s\<lparr> dataLength := len \<rparr>)
      else s)"

definition getDataLength :: "viewport \<Rightarrow> nat" where
  "getDataLength s = dataLength s"

definition getViewportSize :: "viewport \<Rightarrow> int" where
  "getViewportSize s = viewportSize s"

definition getRenderedRange :: "viewport \<Rightarrow> ListRange" where
  "getRenderedRange s = renderedRange s"

definition setTotalContentSize :: "int \<Rightarrow> viewport \<Rightarrow> viewport" where
  "setTotalContentSize size' s =
     (if totalContentSize s \<noteq> size' then emit MarkForCheck (s\<lparr> totalContentSize := size' \<rparr>)
      else s)"

text \<open>
  \<^verbatim>\<open>this._renderedRangeSubject.next(this._renderedRange = range)\<close> assigns, then
  publishes unless the subject is completed; the \<^verbatim>\<open>take(1)\<close> subscription to
  \<^verbatim>\<open>onStable\<close> is one more waiting subscriber.
\<close>

definition setRenderedRange :: "ListRange \<Rightarrow> viewport \<Rightarrow> viewport" where
  "setRenderedRange range' s =
     (if \<not> rangesEqual (renderedRange s) range' then
        (let s1 = s\<lparr> renderedRange := range' \<rparr>;
             s2 = (if renderedRangeSubject_stopped s1 then s1 else emit (RangeEmitted range') s1);
             s3 = emit MarkForCheck s2
         in s3\<lparr> stableSubs := Suc (stableSubs s3) \<rparr>)
      else s)"

text \<open>Lines 215 to 222: the string compared and stored by \<^verbatim>\<open>setRenderedContentOffset\<close>.\<close>

definition compute_transform :: "orientation \<Rightarrow> int \<Rightarrow> edge \<Rightarrow> string" where
  "compute_transform ori offset to =
     (let axis = (if ori = Horizontal then ''X'' else ''Y'');
          transform = ''translate'' @ axis @ ''('' @ number_to_string offset @ ''px)''
      in if to = ToEnd then transform @ '' translate'' @ axis @ ''(-100%)'' else transform)"

text \<open>The second argument is optional: \<open>None\<close> is the call that leaves it out.\<close>

definition setRenderedContentOffset :: "int \<Rightarrow> edge option \<Rightarrow> viewport \<Rightarrow> viewport" where
  "setRenderedContentOffset offset to_arg s =
     (let to = (case to_arg of None \<Rightarrow> ToStart | Some e \<Rightarrow> e);
          transform = compute_transform (orientation s) offset to
      in if loose_neq (renderedContentTransform s) transform then
           emit MarkForCheck (s\<lparr> renderedContentTransform := Some (SafeStyleImpl transform) \<rparr>)
         else s)"

definition setScrollOffset :: "int \<Rightarrow> viewport \<Rightarrow> viewport" where
  "setScrollOffset offset s = emit MarkForCheck (s\<lparr> pendingScrollOffset := Some offset \<rparr>)"

subsection \<open>The environment\<close>

text \<open>
  A microtask runs when the synchronous code that queued it has returned.  The body of
  the \<^verbatim>\<open>ngOnInit\<close> closure measures the element, attaches the strategy and subscribes to
  the sampled scroll stream; the closure of \<^verbatim>\<open>setRenderedRange\<close> calls the strategy.
\<close>

fun run_task :: "task \<Rightarrow> viewport \<Rightarrow> viewport" where
  "run_task InitTask s =
     (let s1 = s\<lparr> viewportSize :=
                  (if orientation s = Horizontal then clientWidth (nativeElement s)
                   else clientHeight (nativeElement s)) \<rparr>;
          s2 = emit (Strategy StrategyAttach) s1
      in s2\<lparr> scrollSubs := scrollSubs s2 @ [False] \<rparr>)"
| "run_task ContentRenderedTask s = emit (Strategy OnContentRendered) s"

definition run_microtasks :: "viewport \<Rightarrow> viewport" where
  "run_microtasks s = fold run_task (microtasks s) (s\<lparr> microtasks := [] \<rparr>)"

text \<open>
  \<^verbatim>\<open>NgZone.onStable\<close> emits: every waiting \<^verbatim>\<open>take(1)\<close> subscriber runs once, queues its
  microtask and is gone.
\<close>

definition zone_stable :: "viewport \<Rightarrow> viewport" where
  "zone_stable s =
     s\<lparr> microtasks := microtasks s @ replicate (stableSubs s) ContentRenderedTask,
        stableSubs := 0 \<rparr>"

text \<open>
  A scroll event of the element reaches every \<^verbatim>\<open>sampleTime\<close>, which keeps it; at the next
  animation frame each \<^verbatim>\<open>sampleTime\<close> that holds a value passes it on, once.
\<close>

definition scroll_event :: "viewport \<Rightarrow> viewport" where
  "scroll_event s = s\<lparr> scrollSubs := map (\<lambda>_. True) (scrollSubs s) \<rparr>"

definition animation_frame :: "viewport \<Rightarrow> viewport" where
  "animation_frame s =
     s\<lparr> effects := effects s @ map (\<lambda>_. Strategy OnContentScrolled) (filter id (scrollSubs s)),
        scrollSubs := map (\<lambda>_. False) (scrollSubs s) \<rparr>"

text \<open>
  The \<^verbatim>\<open>dataStream\<close> of \<open>f\<close> emits an array of \<open>len\<close> items: every live subscription to
  that stream runs its subscriber.
\<close>

definition data_emit :: "forOf \<Rightarrow> nat \<Rightarrow> viewport \<Rightarrow> viewport" where
  "data_emit f len s = fold (\<lambda>g. if g = f then on_data len else id) (dataSubs s) s"

subsection \<open>Events and runs\<close>

datatype event =
  NgOnInit
| NgDoCheck
| NgOnDestroy
| Attach forOf
| Detach
| SetTotalContentSize int
| SetRenderedRange ListRange
| SetRenderedContentOffset int "edge option"
| SetScrollOffset int
| DataEmit forOf nat
| ZoneStable
| Microtasks
| ScrollEvent
| AnimationFrame

fun step :: "event \<Rightarrow> viewport \<Rightarrow> error + viewport" where
  "step NgOnInit s = Inr (ngOnInit s)"
| "step NgDoCheck s = Inr (ngDoCheck s)"
| "step NgOnDestroy s = Inr (ngOnDestroy s)"
| "step (Attach f) s = attach f s"
| "step Detach s = Inr (detach s)"
| "step (SetTotalContentSize n) s = Inr (setTotalContentSize n s)"
| "step (SetRenderedRange r) s = Inr (setRenderedRange r s)"
| "step (SetRenderedContentOffset n to) s = Inr (setRenderedContentOffset n to s)"
| "step (SetScrollOffset n) s = Inr (setScrollOffset n s)"
| "step (DataEmit f len) s = Inr (data_emit f len s)"
| "step ZoneStable s = Inr (zone_stable s)"
| "step Microtasks s = Inr (run_microtasks s)"
| "step ScrollEvent s = Inr (scroll_event s)"
| "step AnimationFrame s = Inr (animation_frame s)"

text \<open>A call that throws leaves the viewport as it was; the run goes on.\<close>

definition exec :: "event \<Rightarrow> viewport \<Rightarrow> viewport" where
  "exec ev s = (case step ev s of Inl _ \<Rightarrow> s | Inr s' \<Rightarrow> s')"

definition run :: "event list \<Rightarrow> viewport \<Rightarrow> viewport" where
  "run evs s = fold exec evs s"

subsection \<open>Vocabulary of the properties\<close>

fun is_scroll_write :: "effect \<Rightarrow> bool" where
  "is_scroll_write (ScrollLeftWrite _) = True"
| "is_scroll_write (ScrollTopWrite _) = True"
| "is_scroll_write _ = False"

fun is_strategy_call :: "effect \<Rightarrow> bool" where
  "is_strategy_call (Strategy _) = True"
| "is_strategy_call _ = False"

fun is_length_change :: "effect \<Rightarrow> bool" where
  "is_length_change (Strategy OnDataLengthChanged) = True"
| "is_length_change _ = False"

text \<open>The four mutation calls that \<^verbatim>\<open>markForCheck\<close>.\<close>

fun is_setter :: "event \<Rightarrow> bool" where
  "is_setter (SetTotalContentSize _) = True"
| "is_setter (SetRenderedRange _) = True"
| "is_setter (SetRenderedContentOffset _ _) = True"
| "is_setter (SetScrollOffset _) = True"
| "is_setter _ = False"

text \<open>The values passed to \<^verbatim>\<open>setScrollOffset\<close> in a run, in the order of the calls.\<close>

fun scroll_offset_of :: "event \<Rightarrow> int list" where
  "scroll_offset_of (SetScrollOffset v) = [v]"
| "scroll_offset_of _ = []"

definition scroll_offsets :: "event list \<Rightarrow> int list" where
  "scroll_offsets evs = concat (map scroll_offset_of evs)"

text \<open>
  What may follow \<^verbatim>\<open>setRenderedRange\<close> before the synchronous code of the cycle returns:
  the two other calls of the series, and the zone reporting that it is stable (it does so
  at the end of a \<^verbatim>\<open>run\<close> entered from outside the zone, hence possibly between the
  calls).
\<close>

fun cycle_followup :: "event \<Rightarrow> bool" where
  "cycle_followup (SetTotalContentSize _) = True"
| "cycle_followup (SetRenderedContentOffset _ _) = True"
| "cycle_followup ZoneStable = True"
| "cycle_followup _ = False"

fun is_attach :: "event \<Rightarrow> bool" where
  "is_attach (Attach _) = True"
| "is_attach _ = False"

text \<open>
  The components of a CSS transform list are separated by single spaces in the string
  that \<^verbatim>\<open>setRenderedContentOffset\<close> builds.
\<close>

primrec split_spaces :: "string \<Rightarrow> string list" where
  "split_spaces [] = [] # []"
| "split_spaces (c # cs) =
     (if c = CHR '' '' then [] # split_spaces cs
      else (case split_spaces cs of [] \<Rightarrow> [c] # [] | w # ws \<Rightarrow> (c # w) # ws))"


text \<open>An element of 300 by 500 pixels, for the concrete runs.\<close>

definition el0 :: element where
  "el0 = \<lparr> clientWidth = 300, clientHeight = 500 \<rparr>"

section \<open>Properties\<close>

subsection \<open>Basic facts\<close>

lemma effects_emit [simp]: "effects (emit e s) = effects s @ [e]"
  by (simp add: emit_def)

lemma run_Nil [simp]: "run [] s = s"
  by (simp add: run_def)

lemma run_Cons [simp]: "run (ev # evs) s = run evs (exec ev s)"
  by (simp add: run_def)

text \<open>
  The guard of \<^verbatim>\<open>setRenderedContentOffset\<close> compares the stored wrapper object with the
  new string.  The text of the object starts with \<open>SafeValue\<close>, the string with
  \<open>translate\<close>: the guard holds in every state.
\<close>

lemma loose_neq_transform [simp]: "loose_neq x (compute_transform ori off to)"
  by (cases x) (simp_all add: loose_neq_def compute_transform_def safeValue_toString_def Let_def)

lemma setRenderedContentOffset_always:
  "setRenderedContentOffset off to_arg s =
     emit MarkForCheck (s\<lparr> renderedContentTransform :=
        Some (SafeStyleImpl (compute_transform (orientation s) off
                (case to_arg of None \<Rightarrow> ToStart | Some e \<Rightarrow> e))) \<rparr>)"
  by (simp add: setRenderedContentOffset_def Let_def)

lemmas eval_defs = run_def exec_def ngOnInit_def ngDoCheck_def ngOnDestroy_def attach_def detach_def
  setTotalContentSize_def setRenderedRange_def setRenderedContentOffset_always setScrollOffset_def
  zone_stable_def scroll_event_def animation_frame_def run_microtasks_def data_emit_def on_data_def
  emit_def Let_def new_viewport_def el0_def rangesEqual_def

lemma number_to_string_100: "number_to_string 100 = ''100''"
  by (simp add: number_to_string_def nat_to_string.simps [of 100] nat_to_string.simps [of 10]
        nat_to_string.simps [of 1] nat_to_string.simps [of "Suc 0"] digit_char_def)

subsection \<open>The subscriber of the data stream\<close>

lemma on_data_dataSubs [simp]: "dataSubs (on_data len s) = dataSubs s"
  by (simp add: on_data_def emit_def)

lemma data_emit_subscribed:
  assumes "f \<in> set (dataSubs s)"
  shows "data_emit f len s = on_data len s"
proof -
  let ?h = "\<lambda>g. if g = f then on_data len else id"
  have idem: "on_data len (on_data len t) = on_data len t" for t
    by (simp add: on_data_def emit_def)
  have after: "fold ?h gs (on_data len t) = on_data len t" for gs t
    by (induction gs arbitrary: t) (auto simp: idem)
  have "f \<in> set gs \<Longrightarrow> fold ?h gs t = on_data len t" for gs t
    by (induction gs arbitrary: t) (auto simp: after)
  with assms show ?thesis
    by (simp add: data_emit_def)
qed

lemma exec_DataEmit: "exec (DataEmit f len) s = data_emit f len s"
  by (simp add: exec_def)

subsection \<open>Setters that find nothing to change\<close>

text \<open>
  C4.  \<^verbatim>\<open>setRenderedRange(r)\<close> returns the viewport as it is when the current range has
  the \<^verbatim>\<open>start\<close> and \<^verbatim>\<open>end\<close> of \<open>r\<close>: nothing is published and nothing is marked.  A second
  call with the same \<open>r\<close> is therefore always without effect, and when the first call changes
  the range of a viewport whose range stream is open, the two calls together publish \<open>r\<close>
  once.  \<^verbatim>\<open>setTotalContentSize(n)\<close> returns the viewport as it is when the total content
  size is \<open>n\<close>.
\<close>

theorem setters_noop_when_unchanged:
  "(rangesEqual (renderedRange s) r \<longrightarrow> setRenderedRange r s = s)
   \<and> setRenderedRange r (setRenderedRange r s) = setRenderedRange r s
   \<and> (\<not> rangesEqual (renderedRange s) r \<and> \<not> renderedRangeSubject_stopped s \<longrightarrow>
        effects (setRenderedRange r (setRenderedRange r s)) =
          effects s @ [RangeEmitted r, MarkForCheck])
   \<and> (totalContentSize s = n \<longrightarrow> setTotalContentSize n s = s)
   \<and> setTotalContentSize n (setTotalContentSize n s) = setTotalContentSize n s"
  by (simp add: setRenderedRange_def setTotalContentSize_def rangesEqual_def emit_def Let_def)

theorem setters_noop_when_unchanged_witness:
  "rangesEqual (renderedRange (new_viewport Vertical el0)) \<lparr> start = 0, end' = 0 \<rparr>
   \<and> setRenderedRange \<lparr> start = 0, end' = 0 \<rparr> (new_viewport Vertical el0) = new_viewport Vertical el0
   \<and> \<not> rangesEqual (renderedRange (new_viewport Vertical el0)) \<lparr> start = 48, end' = 68 \<rparr>
   \<and> \<not> renderedRangeSubject_stopped (new_viewport Vertical el0)
   \<and> effects (setRenderedRange \<lparr> start = 48, end' = 68 \<rparr>
        (setRenderedRange \<lparr> start = 48, end' = 68 \<rparr> (new_viewport Vertical el0)))
       = [RangeEmitted \<lparr> start = 48, end' = 68 \<rparr>, MarkForCheck]
   \<and> totalContentSize (new_viewport Vertical el0) = 0
   \<and> setTotalContentSize 0 (new_viewport Vertical el0) = new_viewport Vertical el0"
  using setters_noop_when_unchanged [of "new_viewport Vertical el0" "\<lparr> start = 0, end' = 0 \<rparr>" 0]
        setters_noop_when_unchanged [of "new_viewport Vertical el0" "\<lparr> start = 48, end' = 68 \<rparr>" 0]
  by (simp add: eval_defs)

subsection \<open>Attaching and detaching\<close>

text \<open>
  C3.  While a \<^verbatim>\<open>CdkVirtualForOf\<close> is attached, \<^verbatim>\<open>attach\<close> throws the error
  \<open>CdkVirtualScrollViewport is already attached.\<close> and the viewport stays as it was.  After
  \<^verbatim>\<open>detach()\<close>, \<^verbatim>\<open>attach(f)\<close> returns normally with \<open>f\<close> attached; on a viewport that has
  not been destroyed the subscription to the data stream of \<open>f\<close> is then the only one, and
  an emission of that stream runs the subscriber.
\<close>

theorem attach_exclusive:
  "(forOf s \<noteq> None \<longrightarrow>
      attach f s = Inl (Error ''CdkVirtualScrollViewport is already attached.'')
      \<and> exec (Attach f) s = s)
   \<and> (case attach f (detach s) of Inl e \<Rightarrow> False | Inr s' \<Rightarrow> forOf s' = Some f)
   \<and> (\<not> detachedSubject_stopped s \<longrightarrow>
        attach f (detach s) = Inr ((detach s)\<lparr> forOf := Some f, dataSubs := [f] \<rparr>)
        \<and> data_emit f len ((detach s)\<lparr> forOf := Some f, dataSubs := [f] \<rparr>)
            = on_data len ((detach s)\<lparr> forOf := Some f, dataSubs := [f] \<rparr>))"
proof -
  have "data_emit f len ((detach s)\<lparr> forOf := Some f, dataSubs := [f] \<rparr>)
          = on_data len ((detach s)\<lparr> forOf := Some f, dataSubs := [f] \<rparr>)"
    by (rule data_emit_subscribed) simp
  moreover have "attach f (detach s) = Inr ((detach s)\<lparr> forOf := Some f, dataSubs := dataSubs (detach s) @ [f] \<rparr>)"
    by (simp add: attach_def detach_def Let_def)
  moreover have "\<not> detachedSubject_stopped s \<Longrightarrow> dataSubs (detach s) = []"
    by (simp add: detach_def Let_def)
  moreover have "forOf s \<noteq> None \<Longrightarrow>
      attach f s = Inl (Error ''CdkVirtualScrollViewport is already attached.'') \<and> exec (Attach f) s = s"
    by (simp add: attach_def exec_def)
  ultimately show ?thesis
    by simp
qed

theorem attach_exclusive_witness:
  "forOf (exec (Attach 1) (new_viewport Vertical el0)) \<noteq> None
   \<and> attach 2 (exec (Attach 1) (new_viewport Vertical el0))
       = Inl (Error ''CdkVirtualScrollViewport is already attached.'')
   \<and> exec (Attach 2) (exec (Attach 1) (new_viewport Vertical el0))
       = exec (Attach 1) (new_viewport Vertical el0)
   \<and> \<not> detachedSubject_stopped (exec (Attach 1) (new_viewport Vertical el0))
   \<and> attach 2 (detach (exec (Attach 1) (new_viewport Vertical el0)))
       = Inr ((new_viewport Vertical el0)\<lparr> forOf := Some 2, dataSubs := [2] \<rparr>)
   \<and> effects (data_emit 2 200 ((detach (exec (Attach 1) (new_viewport Vertical el0)))
                 \<lparr> forOf := Some 2, dataSubs := [2] \<rparr>))
       = [Strategy OnDataLengthChanged]"
  using attach_exclusive [of "exec (Attach 1) (new_viewport Vertical el0)" 2 200]
  by (simp add: eval_defs)

text \<open>
  C9.  \<^verbatim>\<open>detach()\<close> has no throwing path: as an event it always returns.  It leaves no
  \<^verbatim>\<open>CdkVirtualForOf\<close> attached, a second \<^verbatim>\<open>detach()\<close> changes nothing, and after
  \<^verbatim>\<open>ngOnDestroy\<close>, which itself leaves nothing attached, \<^verbatim>\<open>detach()\<close> changes nothing.
\<close>

theorem detach_safe_to_repeat:
  "step Detach s = Inr (detach s)
   \<and> forOf (detach s) = None
   \<and> detach (detach s) = detach s
   \<and> step NgOnDestroy s = Inr (ngOnDestroy s)
   \<and> forOf (ngOnDestroy s) = None
   \<and> detach (ngOnDestroy s) = ngOnDestroy s"
  by (simp add: detach_def ngOnDestroy_def emit_def Let_def)

subsection \<open>Changes of the data length\<close>

text \<open>
  C5.  While the viewport is subscribed to the data stream of \<open>f\<close>, a sequence \<open>ls\<close> of
  lengths emitted by that stream calls \<^verbatim>\<open>onDataLengthChanged\<close> once for every emission
  that differs from the length stored just before it, and for no other: as many times as
  the sequence \<open>dataLength s # ls\<close> changes value.  The stored length ends as the last
  emitted one, and an emission of the stored length leaves the viewport as it is.
\<close>

theorem data_length_change_dedup:
  assumes "f \<in> set (dataSubs s)"
  shows "effects (run (map (DataEmit f) ls) s) =
           effects s @ replicate (length (remdups_adj (dataLength s # ls)) - 1)
                         (Strategy OnDataLengthChanged)
         \<and> dataLength (run (map (DataEmit f) ls) s) = last (dataLength s # ls)
         \<and> data_emit f (dataLength s) s = s"
  using assms
proof (induction ls arbitrary: s)
  case Nil
  then show ?case by (simp add: data_emit_subscribed on_data_def)
next
  case (Cons l ls)
  let ?t = "on_data l s"
  have sub: "f \<in> set (dataSubs ?t)"
    using Cons.prems by simp
  have st: "exec (DataEmit f l) s = ?t"
    using Cons.prems by (simp add: exec_DataEmit data_emit_subscribed)
  note ih = Cons.IH [OF sub]
  show ?case
  proof (cases "l = dataLength s")
    case True
    then have "?t = s" by (simp add: on_data_def)
    with ih st True show ?thesis
      by (simp add: data_emit_subscribed [OF Cons.prems] on_data_def)
  next
    case False
    then have e: "effects ?t = effects s @ [Strategy OnDataLengthChanged]"
      and d: "dataLength ?t = l"
      by (simp_all add: on_data_def emit_def)
    have "length (remdups_adj (l # ls)) \<ge> 1" by simp
    then have "replicate (length (remdups_adj (dataLength s # l # ls)) - 1) (Strategy OnDataLengthChanged)
       = Strategy OnDataLengthChanged
           # replicate (length (remdups_adj (l # ls)) - 1) (Strategy OnDataLengthChanged)"
      using False by (cases "remdups_adj (l # ls)") auto
    with ih st e d False show ?thesis
      by (simp add: data_emit_subscribed [OF Cons.prems] on_data_def)
  qed
qed

theorem data_length_change_dedup_witness:
  "1 \<in> set (dataSubs (exec (Attach 1) (new_viewport Vertical el0)))
   \<and> effects (run (map (DataEmit 1) [5, 5, 7, 7, 5]) (exec (Attach 1) (new_viewport Vertical el0)))
       = [Strategy OnDataLengthChanged, Strategy OnDataLengthChanged, Strategy OnDataLengthChanged]
   \<and> dataLength (run (map (DataEmit 1) [5, 5, 7, 7, 5]) (exec (Attach 1) (new_viewport Vertical el0))) = 5"
  using data_length_change_dedup [of 1 "exec (Attach 1) (new_viewport Vertical el0)" "[5, 5, 7, 7, 5]"]
  by (simp add: eval_defs)

subsection \<open>The pending scroll offset\<close>

lemma fold_run_task_kept:
  "pendingScrollOffset (fold run_task ts t) = pendingScrollOffset t
   \<and> orientation (fold run_task ts t) = orientation t"
proof (induction ts arbitrary: t)
  case Nil
  then show ?case by simp
next
  case (Cons a ts)
  then show ?case by (cases a) (simp_all add: emit_def Let_def)
qed

lemma fold_on_data_kept:
  "pendingScrollOffset (fold (\<lambda>g. if g = f then on_data len else id) gs t) = pendingScrollOffset t
   \<and> orientation (fold (\<lambda>g. if g = f then on_data len else id) gs t) = orientation t"
  by (induction gs arbitrary: t) (simp_all add: on_data_def emit_def)

lemma pending_exec:
  "pendingScrollOffset (exec ev s) =
     (case scroll_offset_of ev of [] \<Rightarrow> pendingScrollOffset s | v # _ \<Rightarrow> Some v)"
proof (cases ev)
  case Microtasks
  then show ?thesis
    using fold_run_task_kept [of "microtasks s" "s\<lparr> microtasks := [] \<rparr>"]
    by (simp add: exec_def run_microtasks_def)
next
  case (DataEmit f len)
  then show ?thesis
    using fold_on_data_kept [of f len "dataSubs s" s]
    by (simp add: exec_def data_emit_def)
qed (simp_all add: exec_def ngOnInit_def ngDoCheck_def ngOnDestroy_def attach_def detach_def
      setTotalContentSize_def setRenderedRange_def setRenderedContentOffset_always setScrollOffset_def
      zone_stable_def scroll_event_def animation_frame_def emit_def Let_def split: option.splits)

lemma pending_run:
  "pendingScrollOffset (run evs s) =
     (if scroll_offsets evs = [] then pendingScrollOffset s else Some (last (scroll_offsets evs)))"
proof (induction evs arbitrary: s)
  case Nil
  then show ?case by (simp add: scroll_offsets_def)
next
  case (Cons ev evs)
  show ?case
    by (cases ev) (simp_all add: Cons.IH pending_exec scroll_offsets_def)
qed

lemma orientation_exec [simp]: "orientation (exec ev s) = orientation s"
proof (cases ev)
  case Microtasks
  then show ?thesis
    using fold_run_task_kept [of "microtasks s" "s\<lparr> microtasks := [] \<rparr>"]
    by (simp add: exec_def run_microtasks_def)
next
  case (DataEmit f len)
  then show ?thesis
    using fold_on_data_kept [of f len "dataSubs s" s]
    by (simp add: exec_def data_emit_def)
qed (simp_all add: exec_def ngOnInit_def ngDoCheck_def ngOnDestroy_def attach_def detach_def
      setTotalContentSize_def setRenderedRange_def setRenderedContentOffset_always setScrollOffset_def
      zone_stable_def scroll_event_def animation_frame_def emit_def Let_def split: option.splits)

lemma orientation_run [simp]: "orientation (run evs s) = orientation s"
  by (induction evs arbitrary: s) simp_all

lemma setter_no_scroll_write:
  "is_setter ev \<Longrightarrow>
     filter is_scroll_write (effects (exec ev s)) = filter is_scroll_write (effects s)"
  by (cases ev) (simp_all add: exec_def setTotalContentSize_def setRenderedRange_def
       setRenderedContentOffset_always setScrollOffset_def emit_def Let_def)

lemma setters_no_scroll_write:
  "\<forall>ev\<in>set evs. is_setter ev \<Longrightarrow>
     filter is_scroll_write (effects (run evs s)) = filter is_scroll_write (effects s)"
  by (induction evs arbitrary: s) (simp_all add: setter_no_scroll_write)

lemma ngDoCheck_effects:
  "pendingScrollOffset s = Some v \<Longrightarrow>
     effects (ngDoCheck s) =
       effects s @ [if orientation s = Horizontal then ScrollLeftWrite v else ScrollTopWrite v]"
  by (simp add: ngDoCheck_def)

text \<open>
  C2.  Let the mutation calls of one check cycle be \<open>evs\<close>, with at least one
  \<^verbatim>\<open>setScrollOffset\<close> among them.  None of the calls assigns \<^verbatim>\<open>scrollLeft\<close> or
  \<^verbatim>\<open>scrollTop\<close>: the scroll writes of the trace after the calls are those before them.
  The \<^verbatim>\<open>ngDoCheck\<close> of the cycle then adds exactly one effect, the scroll write along the
  axis of the viewport, with the value of the last \<^verbatim>\<open>setScrollOffset\<close>.
\<close>

theorem single_scroll_flush_per_cycle:
  assumes "\<forall>ev\<in>set evs. is_setter ev" and "scroll_offsets evs \<noteq> []"
  shows "filter is_scroll_write (effects (run evs s)) = filter is_scroll_write (effects s)
         \<and> effects (ngDoCheck (run evs s)) =
             effects (run evs s) @
               [if orientation s = Horizontal then ScrollLeftWrite (last (scroll_offsets evs))
                else ScrollTopWrite (last (scroll_offsets evs))]"
proof -
  have "pendingScrollOffset (run evs s) = Some (last (scroll_offsets evs))"
    using assms(2) by (simp add: pending_run)
  from ngDoCheck_effects [OF this] setters_no_scroll_write [OF assms(1)]
  show ?thesis by simp
qed

theorem single_scroll_flush_per_cycle_witness:
  "list_all is_setter [SetScrollOffset 100, SetTotalContentSize 5, SetScrollOffset 2400]
   \<and> scroll_offsets [SetScrollOffset 100, SetTotalContentSize 5, SetScrollOffset 2400] \<noteq> []
   \<and> effects (run [SetScrollOffset 100, SetTotalContentSize 5, SetScrollOffset 2400]
        (new_viewport Vertical el0))
       = [MarkForCheck, MarkForCheck, MarkForCheck]
   \<and> effects (ngDoCheck (run [SetScrollOffset 100, SetTotalContentSize 5, SetScrollOffset 2400]
        (new_viewport Vertical el0)))
       = [MarkForCheck, MarkForCheck, MarkForCheck, ScrollTopWrite 2400]"
  using single_scroll_flush_per_cycle
    [of "[SetScrollOffset 100, SetTotalContentSize 5, SetScrollOffset 2400]" "new_viewport Vertical el0"]
  by (simp add: eval_defs scroll_offsets_def)

text \<open>
  C10.  After a call \<^verbatim>\<open>setScrollOffset(v)\<close>, whatever happens next (any events \<open>evs\<close>,
  check cycles among them), the pending scroll offset is set: it is the value of the most
  recent \<^verbatim>\<open>setScrollOffset\<close>, and an \<^verbatim>\<open>ngDoCheck\<close> at that point writes that value to
  the scroll position again.
\<close>

theorem pending_scroll_offset_never_cleared:
  "pendingScrollOffset (run evs (setScrollOffset v s)) = Some (last (v # scroll_offsets evs))
   \<and> effects (ngDoCheck (run evs (setScrollOffset v s))) =
       effects (run evs (setScrollOffset v s)) @
         [if orientation s = Horizontal then ScrollLeftWrite (last (v # scroll_offsets evs))
          else ScrollTopWrite (last (v # scroll_offsets evs))]"
proof -
  have p: "pendingScrollOffset (run evs (setScrollOffset v s)) = Some (last (v # scroll_offsets evs))"
    by (simp add: pending_run setScrollOffset_def emit_def)
  have "orientation (setScrollOffset v s) = orientation s"
    by (simp add: setScrollOffset_def emit_def)
  with ngDoCheck_effects [OF p] p show ?thesis by simp
qed

subsection \<open>The notification that the content is rendered\<close>

lemma fold_run_task_replicate:
  "fold run_task (replicate n ContentRenderedTask) t =
     t\<lparr> effects := effects t @ replicate n (Strategy OnContentRendered) \<rparr>"
proof (induction n arbitrary: t)
  case 0
  then show ?case by simp
next
  case (Suc n)
  then show ?case by (simp add: emit_def replicate_app_Cons_same)
qed

text \<open>
  A call of the series or an emission of \<^verbatim>\<open>onStable\<close> calls no method of the strategy;
  it keeps the number of notifications on their way (waiting for \<^verbatim>\<open>onStable\<close> or queued as
  a microtask), and queues no other kind of microtask.
\<close>

lemma followup_exec:
  assumes "cycle_followup ev"
  shows "filter is_strategy_call (effects (exec ev t)) = filter is_strategy_call (effects t)
         \<and> stableSubs (exec ev t) + length (microtasks (exec ev t))
             = stableSubs t + length (microtasks t)
         \<and> (set (microtasks t) \<subseteq> {ContentRenderedTask} \<longrightarrow>
              set (microtasks (exec ev t)) \<subseteq> {ContentRenderedTask})"
  using assms
  by (cases ev) (auto simp: exec_def setTotalContentSize_def setRenderedContentOffset_always
        zone_stable_def emit_def)

lemma followup_run:
  assumes "\<forall>ev\<in>set evs. cycle_followup ev"
  shows "filter is_strategy_call (effects (run evs t)) = filter is_strategy_call (effects t)
         \<and> stableSubs (run evs t) + length (microtasks (run evs t))
             = stableSubs t + length (microtasks t)
         \<and> (set (microtasks t) \<subseteq> {ContentRenderedTask} \<longrightarrow>
              set (microtasks (run evs t)) \<subseteq> {ContentRenderedTask})"
  using assms
proof (induction evs arbitrary: t)
  case Nil
  then show ?case by simp
next
  case (Cons ev evs)
  from Cons.prems have f: "cycle_followup ev" and r: "\<forall>ev\<in>set evs. cycle_followup ev"
    by simp_all
  from followup_exec [OF f, of t] Cons.IH [OF r, of "exec ev t"]
  show ?case by auto
qed

lemma settle_all_rendered:
  assumes "set (microtasks t) \<subseteq> {ContentRenderedTask}"
  shows "run_microtasks (zone_stable t) =
           t\<lparr> effects := effects t @ replicate (stableSubs t + length (microtasks t))
                                        (Strategy OnContentRendered),
              stableSubs := 0, microtasks := [] \<rparr>"
proof -
  have "microtasks t = replicate (length (microtasks t)) ContentRenderedTask"
    using assms by (metis replicate_length_same subset_singletonD empty_iff insert_iff subsetD)
  then have "microtasks t @ replicate (stableSubs t) ContentRenderedTask
               = replicate (stableSubs t + length (microtasks t)) ContentRenderedTask"
    by (metis add.commute replicate_add)
  then show ?thesis
    by (simp add: run_microtasks_def zone_stable_def fold_run_task_replicate del: fold_replicate)
qed

text \<open>
  C1.  A cycle starts with nothing waiting for \<^verbatim>\<open>onStable\<close> and an empty microtask queue.
  \<^verbatim>\<open>setRenderedRange(r)\<close> is called with a range that differs from the current one, followed
  by any calls \<open>evs\<close> of \<^verbatim>\<open>setTotalContentSize\<close> and \<^verbatim>\<open>setRenderedContentOffset\<close>, between
  which the zone may report that it is stable.  Up to the end of these calls no method of
  the strategy has been called.  When the zone is then stable and the microtasks run,
  \<^verbatim>\<open>onContentRendered\<close> is the one effect added: it comes after every effect of the calls,
  the viewport holds what the calls have set, and nothing is left waiting or queued that
  could call it a second time.
\<close>

theorem settle_then_notify_once:
  assumes "\<not> rangesEqual (renderedRange s) r"
      and "stableSubs s = 0" and "microtasks s = []"
      and "\<forall>ev\<in>set evs. cycle_followup ev"
  shows "filter is_strategy_call (effects (run evs (setRenderedRange r s))) =
           filter is_strategy_call (effects s)
         \<and> run_microtasks (zone_stable (run evs (setRenderedRange r s))) =
             (run evs (setRenderedRange r s))
               \<lparr> effects := effects (run evs (setRenderedRange r s)) @ [Strategy OnContentRendered],
                  stableSubs := 0, microtasks := [] \<rparr>"
proof -
  let ?s1 = "setRenderedRange r s"
  let ?s2 = "run evs ?s1"
  have a: "filter is_strategy_call (effects ?s1) = filter is_strategy_call (effects s)"
    and b: "stableSubs ?s1 + length (microtasks ?s1) = 1"
    and c: "microtasks ?s1 = []"
    using assms(1-3) by (simp_all add: setRenderedRange_def emit_def Let_def)
  from followup_run [OF assms(4), of ?s1] a b c
  have a2: "filter is_strategy_call (effects ?s2) = filter is_strategy_call (effects s)"
    and b2: "stableSubs ?s2 + length (microtasks ?s2) = 1"
    and c2: "set (microtasks ?s2) \<subseteq> {ContentRenderedTask}"
    by simp_all
  from settle_all_rendered [OF c2] b2 a2 show ?thesis by simp
qed

theorem settle_then_notify_once_witness:
  "\<not> rangesEqual (renderedRange (new_viewport Vertical el0)) \<lparr> start = 48, end' = 68 \<rparr>
   \<and> stableSubs (new_viewport Vertical el0) = 0
   \<and> microtasks (new_viewport Vertical el0) = []
   \<and> list_all cycle_followup
         [SetTotalContentSize 10000, ZoneStable, SetRenderedContentOffset 2400 None]
   \<and> effects (run_microtasks (zone_stable
        (run [SetTotalContentSize 10000, ZoneStable, SetRenderedContentOffset 2400 None]
           (setRenderedRange \<lparr> start = 48, end' = 68 \<rparr> (new_viewport Vertical el0)))))
      = [RangeEmitted \<lparr> start = 48, end' = 68 \<rparr>, MarkForCheck, MarkForCheck, MarkForCheck,
         Strategy OnContentRendered]"
  using settle_then_notify_once [of "new_viewport Vertical el0" "\<lparr> start = 48, end' = 68 \<rparr>"
      "[SetTotalContentSize 10000, ZoneStable, SetRenderedContentOffset 2400 None]"]
  by (simp add: eval_defs)

subsection \<open>What \<^verbatim>\<open>detach\<close> ends and what it does not\<close>

lemma run_task_data:
  "dataSubs (run_task a t) = dataSubs t \<and> dataLength (run_task a t) = dataLength t
   \<and> filter is_length_change (effects (run_task a t)) = filter is_length_change (effects t)"
  by (cases a) (simp_all add: emit_def Let_def)

lemma fold_run_task_data:
  "dataSubs (fold run_task ts t) = dataSubs t \<and> dataLength (fold run_task ts t) = dataLength t
   \<and> filter is_length_change (effects (fold run_task ts t)) = filter is_length_change (effects t)"
  by (induction ts arbitrary: t) (simp_all add: run_task_data)

lemma unsubscribed_exec:
  assumes "dataSubs t = []" and "\<not> is_attach ev"
  shows "dataSubs (exec ev t) = [] \<and> dataLength (exec ev t) = dataLength t
         \<and> filter is_length_change (effects (exec ev t)) = filter is_length_change (effects t)"
proof (cases ev)
  case Microtasks
  then show ?thesis
    using assms fold_run_task_data [of "microtasks t" "t\<lparr> microtasks := [] \<rparr>"]
    by (simp add: exec_def run_microtasks_def)
next
  case (DataEmit f len)
  then show ?thesis
    using assms by (simp add: exec_def data_emit_def)
next
  case (Attach f)
  then show ?thesis
    using assms by simp
qed (use assms in \<open>simp_all add: exec_def ngOnInit_def ngDoCheck_def ngOnDestroy_def detach_def
      setTotalContentSize_def setRenderedRange_def setRenderedContentOffset_always setScrollOffset_def
      zone_stable_def scroll_event_def animation_frame_def emit_def Let_def o_def
      split: option.splits\<close>)

lemma unsubscribed_run:
  assumes "dataSubs t = []" and "\<forall>ev\<in>set evs. \<not> is_attach ev"
  shows "dataSubs (run evs t) = [] \<and> dataLength (run evs t) = dataLength t
         \<and> filter is_length_change (effects (run evs t)) = filter is_length_change (effects t)"
  using assms
proof (induction evs arbitrary: t)
  case Nil
  then show ?case by simp
next
  case (Cons ev evs)
  from Cons.prems have a: "\<not> is_attach ev" and r: "\<forall>ev\<in>set evs. \<not> is_attach ev"
    by simp_all
  from unsubscribed_exec [OF Cons.prems(1) a]
  have e: "dataSubs (exec ev t) = []" "dataLength (exec ev t) = dataLength t"
    "filter is_length_change (effects (exec ev t)) = filter is_length_change (effects t)"
    by simp_all
  from Cons.IH [OF e(1) r] e show ?case by simp
qed

text \<open>
  C6, as stated, fails.  A viewport is initialised, a \<^verbatim>\<open>CdkVirtualForOf\<close> is attached, the
  rendered range is set and \<^verbatim>\<open>detach()\<close> is called.  After that the scroll listener still
  calls \<^verbatim>\<open>onContentScrolled\<close> on the next sampled scroll event, the
  \<^verbatim>\<open>onContentRendered\<close> scheduled before \<^verbatim>\<open>detach()\<close> still fires, and a new range is
  still published to the subscribers of the range stream.
\<close>

theorem detach_keeps_scroll_and_rendered_listeners:
  "effects (run [NgOnInit, Microtasks, Attach 1, SetRenderedRange \<lparr> start = 0, end' = 5 \<rparr>, Detach]
              (new_viewport Vertical el0))
     = [Strategy StrategyAttach, RangeEmitted \<lparr> start = 0, end' = 5 \<rparr>, MarkForCheck]
   \<and> effects (run [NgOnInit, Microtasks, Attach 1, SetRenderedRange \<lparr> start = 0, end' = 5 \<rparr>, Detach,
                   ScrollEvent, AnimationFrame, ZoneStable, Microtasks,
                   SetRenderedRange \<lparr> start = 5, end' = 9 \<rparr>]
              (new_viewport Vertical el0))
     = [Strategy StrategyAttach, RangeEmitted \<lparr> start = 0, end' = 5 \<rparr>, MarkForCheck,
        Strategy OnContentScrolled, Strategy OnContentRendered,
        RangeEmitted \<lparr> start = 5, end' = 9 \<rparr>, MarkForCheck]"
  by (simp add: eval_defs)

text \<open>
  C6, amended.  On a viewport that has not been destroyed, \<^verbatim>\<open>detach()\<close> ends the
  subscription to the data stream at once: from then on, as long as nothing is attached
  again, no event changes the stored data length or calls \<^verbatim>\<open>onDataLengthChanged\<close>.
  \<^verbatim>\<open>detach()\<close> leaves the scroll subscriptions, the subscribers waiting for
  \<^verbatim>\<open>onStable\<close> and the queued microtasks as they are.
\<close>

theorem detach_ends_data_subscription:
  assumes "\<not> detachedSubject_stopped s" and "\<forall>ev\<in>set evs. \<not> is_attach ev"
  shows "dataSubs (detach s) = []
         \<and> dataLength (run evs (detach s)) = dataLength s
         \<and> filter is_length_change (effects (run evs (detach s)))
             = filter is_length_change (effects s)
         \<and> scrollSubs (detach s) = scrollSubs s
         \<and> stableSubs (detach s) = stableSubs s
         \<and> microtasks (detach s) = microtasks s"
proof -
  have d: "dataSubs (detach s) = []"
    using assms(1) by (simp add: detach_def Let_def)
  from unsubscribed_run [OF d assms(2)] d show ?thesis
    by (simp add: detach_def Let_def)
qed

theorem detach_ends_data_subscription_witness:
  "\<not> detachedSubject_stopped
       (run [NgOnInit, Microtasks, Attach 1, DataEmit 1 200] (new_viewport Vertical el0))
   \<and> list_all (\<lambda>ev. \<not> is_attach ev)
         [DataEmit 1 300, ScrollEvent, AnimationFrame, DataEmit 2 7, Detach]
   \<and> dataLength (run [DataEmit 1 300, ScrollEvent, AnimationFrame, DataEmit 2 7, Detach]
        (detach (run [NgOnInit, Microtasks, Attach 1, DataEmit 1 200] (new_viewport Vertical el0))))
       = 200
   \<and> filter is_length_change
        (effects (run [DataEmit 1 300, ScrollEvent, AnimationFrame, DataEmit 2 7, Detach]
           (detach (run [NgOnInit, Microtasks, Attach 1, DataEmit 1 200] (new_viewport Vertical el0)))))
       = [Strategy OnDataLengthChanged]"
  using detach_ends_data_subscription
    [of "run [NgOnInit, Microtasks, Attach 1, DataEmit 1 200] (new_viewport Vertical el0)"
        "[DataEmit 1 300, ScrollEvent, AnimationFrame, DataEmit 2 7, Detach]"]
  by (simp add: eval_defs)

subsection \<open>The transform of the rendered content\<close>

text \<open>
  C7 does not hold of the code.  On a new vertical viewport \<^verbatim>\<open>setRenderedContentOffset(100)\<close>
  stores the wrapper of \<open>translateY(100px)\<close> and marks for check.  The same call again
  computes the same string, yet the guard compares it with the wrapper object and not with
  the string inside: the viewport is marked for check a second time.
\<close>

theorem setRenderedContentOffset_repeat_marks_again:
  "setRenderedContentOffset 100 None (new_viewport Vertical el0)
     = (new_viewport Vertical el0)
         \<lparr> renderedContentTransform := Some (SafeStyleImpl ''translateY(100px)''),
            effects := [MarkForCheck] \<rparr>
   \<and> compute_transform Vertical 100 ToStart = ''translateY(100px)''
   \<and> setRenderedContentOffset 100 None (setRenderedContentOffset 100 None (new_viewport Vertical el0))
     = (new_viewport Vertical el0)
         \<lparr> renderedContentTransform := Some (SafeStyleImpl ''translateY(100px)''),
            effects := [MarkForCheck, MarkForCheck] \<rparr>"
  by (simp add: setRenderedContentOffset_always compute_transform_def number_to_string_100
        new_viewport_def emit_def)

lemma split_spaces_not_Nil [simp]: "split_spaces cs \<noteq> []"
  by (induction cs) (auto split: list.splits)












end
